theory Spec2Isabelle
  imports Complex_Main "HOL-Library.Word"
begin

unbundle bit_operations_syntax

section \<open>Python values: errors, bytes, strings\<close>

text \<open>The exceptions the modelled code can raise.\<close>

datatype py_error = AssertionError | KeyError | IndexError | ValueError | TypeError | StructError

type_synonym byte = "8 word"

text \<open>\<^verbatim>\<open>bytes.hex()\<close>: two lower-case hexadecimal digits per byte.\<close>

definition hexdigit :: "nat \<Rightarrow> char" where
  "hexdigit n = ''0123456789abcdef'' ! n"

definition hex_byte :: "byte \<Rightarrow> string" where
  "hex_byte b = [hexdigit (unat b div 16), hexdigit (unat b mod 16)]"

definition bytes_hex :: "byte list \<Rightarrow> string" where
  "bytes_hex bs = concat (map hex_byte bs)"

text \<open>
  \<^verbatim>\<open>bytes.fromhex(s)\<close>: two hexadecimal digits per byte, of either case; ASCII
  whitespace between bytes is skipped; anything else raises ValueError.
\<close>

definition unhex :: "char \<Rightarrow> nat option" where
  "unhex c =
     (let n = (of_char c :: nat) in
      if 48 \<le> n \<and> n \<le> 57 then Some (n - 48)
      else if 97 \<le> n \<and> n \<le> 102 then Some (n - 87)
      else if 65 \<le> n \<and> n \<le> 70 then Some (n - 55)
      else None)"

definition is_space :: "char \<Rightarrow> bool" where
  "is_space c = (c \<in> set [CHR '' '', CHR 0x09, CHR 0x0A, CHR 0x0B, CHR 0x0C, CHR 0x0D])"

fun fromhex :: "string \<Rightarrow> py_error + byte list" where
  "fromhex [] = Inr []"
| "fromhex [c] = (if is_space c then Inr [] else Inl ValueError)"
| "fromhex (c # d # rest) =
     (if is_space c then fromhex (d # rest)
      else (case (unhex c, unhex d) of
              (Some h, Some l) \<Rightarrow>
                (case fromhex rest of
                   Inl e \<Rightarrow> Inl e
                 | Inr bs \<Rightarrow> Inr (word_of_nat (16 * h + l) # bs))
            | _ \<Rightarrow> Inl ValueError))"

text \<open>\<^verbatim>\<open>sep.join(parts)\<close> and \<^verbatim>\<open>s.split(sep)\<close> for a one-character separator.\<close>

fun join :: "'a list \<Rightarrow> 'a list list \<Rightarrow> 'a list" where
  "join sep [] = []"
| "join sep [p] = p"
| "join sep (p # q # ps) = p @ sep @ join sep (q # ps)"

fun split :: "char \<Rightarrow> string \<Rightarrow> string list" where
  "split sep [] = [[]]"
| "split sep (c # cs) =
     (if c = sep then [] # split sep cs
      else (case split sep cs of
              [] \<Rightarrow> [[c]]
            | p # ps \<Rightarrow> (c # p) # ps))"

text \<open>\<^verbatim>\<open>xs[i]\<close> for \<open>i \<ge> 0\<close>: IndexError out of range.\<close>

definition item :: "'a list \<Rightarrow> nat \<Rightarrow> py_error + 'a" where
  "item xs i = (if i < length xs then Inr (xs ! i) else Inl IndexError)"

section \<open>Shader identifier (FileReaders/GeomReader/MaterialReader.py)\<close>

text \<open>
  The \<^verbatim>\<open>shader_hex\<close> part of \<^verbatim>\<open>interpret_material\<close>: the slices
  \<^verbatim>\<open>shader_hex[0:4]\<close>, \<^verbatim>\<open>[4:8]\<close>, \<^verbatim>\<open>[8:12]\<close>, \<^verbatim>\<open>[12:16]\<close>, each reversed
  (\<^verbatim>\<open>[::-1]\<close>) and hex-encoded, joined with underscores.
\<close>

definition interpret_shader_hex :: "byte list \<Rightarrow> string" where
  "interpret_shader_hex shader_hex =
     (let shader_hex_pt_1 = bytes_hex (rev (take 4 shader_hex));
          shader_hex_pt_2 = bytes_hex (rev (take 4 (drop 4 shader_hex)));
          shader_hex_pt_3 = bytes_hex (rev (take 4 (drop 8 shader_hex)));
          shader_hex_pt_4 = bytes_hex (rev (take 4 (drop 12 shader_hex)))
      in join ''_'' [shader_hex_pt_1, shader_hex_pt_2, shader_hex_pt_3, shader_hex_pt_4])"

text \<open>
  The \<^verbatim>\<open>shader_hex\<close> part of \<^verbatim>\<open>reinterpret_material\<close>: split at underscores,
  decode the first four parts, reverse each, concatenate.
\<close>

definition hex_part :: "string list \<Rightarrow> nat \<Rightarrow> py_error + byte list" where
  "hex_part hex_parts k =
     (case item hex_parts k of
        Inl e \<Rightarrow> Inl e
      | Inr p \<Rightarrow> (case fromhex p of Inl e \<Rightarrow> Inl e | Inr bs \<Rightarrow> Inr (rev bs)))"

definition reinterpret_shader_hex :: "string \<Rightarrow> py_error + byte list" where
  "reinterpret_shader_hex shader_hex =
     (let hex_parts = split CHR ''_'' shader_hex in
      (case hex_part hex_parts 0 of Inl e \<Rightarrow> Inl e | Inr shader_hex_pt_1 \<Rightarrow>
      (case hex_part hex_parts 1 of Inl e \<Rightarrow> Inl e | Inr shader_hex_pt_2 \<Rightarrow>
      (case hex_part hex_parts 2 of Inl e \<Rightarrow> Inl e | Inr shader_hex_pt_3 \<Rightarrow>
      (case hex_part hex_parts 3 of Inl e \<Rightarrow> Inl e | Inr shader_hex_pt_4 \<Rightarrow>
        Inr (shader_hex_pt_1 @ shader_hex_pt_2 @ shader_hex_pt_3 @ shader_hex_pt_4))))))"

section \<open>Packed scalars (Python's struct module, little-endian)\<close>

text \<open>Sequencing of fallible steps: the first error ends the computation.\<close>

definition ebind :: "py_error + 'a \<Rightarrow> ('a \<Rightarrow> py_error + 'b) \<Rightarrow> py_error + 'b" where
  "ebind m f = (case m of Inl e \<Rightarrow> Inl e | Inr x \<Rightarrow> f x)"

text \<open>\<^verbatim>\<open>assert cond\<close>\<close>

definition py_assert :: "bool \<Rightarrow> py_error + unit" where
  "py_assert cond = (if cond then Inr () else Inl AssertionError)"

text \<open>
  A float is kept as the bit pattern of its single-precision encoding: what
  \<^verbatim>\<open>struct.unpack('f', b)\<close> returns is represented by the four bytes it came
  from, so packing it again gives those bytes (true of every pattern except,
  on some platforms, signalling NaNs). No arithmetic on floats is modelled.
\<close>

type_synonym float32 = "32 word"

datatype py_value = IntV nat | FloatV float32

datatype field = U8 | U16 | U32 | F32

fun field_size :: "field \<Rightarrow> nat" where
  "field_size U8 = 1"
| "field_size U16 = 2"
| "field_size U32 = 4"
| "field_size F32 = 4"

fun le_nat :: "byte list \<Rightarrow> nat" where
  "le_nat [] = 0"
| "le_nat (b # bs) = unat b + 256 * le_nat bs"

fun le_bytes :: "nat \<Rightarrow> nat \<Rightarrow> byte list" where
  "le_bytes 0 v = []"
| "le_bytes (Suc w) v = word_of_nat (v mod 256) # le_bytes w (v div 256)"

fun unpack_field :: "field \<Rightarrow> byte list \<Rightarrow> py_value" where
  "unpack_field F32 bs = FloatV (word_of_nat (le_nat bs))"
| "unpack_field f bs = IntV (le_nat bs)"

text \<open>
  \<^verbatim>\<open>struct.unpack(fmt, bs)\<close> for a format of unsigned integers and floats whose
  fields need no alignment padding (all the formats of this file): struct.error
  unless the length of \<open>bs\<close> is the size of the format.
\<close>

fun unpack_fields :: "field list \<Rightarrow> byte list \<Rightarrow> py_value list" where
  "unpack_fields [] bs = []"
| "unpack_fields (f # fs) bs =
     unpack_field f (take (field_size f) bs) # unpack_fields fs (drop (field_size f) bs)"

definition unpack :: "field list \<Rightarrow> byte list \<Rightarrow> py_error + py_value list" where
  "unpack fmt bs =
     (if length bs = sum_list (map field_size fmt) then Inr (unpack_fields fmt bs)
      else Inl StructError)"

definition unpack_uint :: "field \<Rightarrow> byte list \<Rightarrow> py_error + nat" where
  "unpack_uint f bs = (if length bs = field_size f then Inr (le_nat bs) else Inl StructError)"

text \<open>
  \<^verbatim>\<open>struct.pack\<close> of one value: an integer out of the field's range, or a float
  where an integer is required, is a struct.error. Python converts an integer
  given for a float field; that conversion is the parameter \<open>to_float\<close>.
\<close>

fun pack_field :: "(nat \<Rightarrow> float32) \<Rightarrow> field \<Rightarrow> py_value \<Rightarrow> py_error + byte list" where
  "pack_field to_float F32 (FloatV x) = Inr (le_bytes 4 (unat x))"
| "pack_field to_float F32 (IntV v) = Inr (le_bytes 4 (unat (to_float v)))"
| "pack_field to_float f (IntV v) =
     (if v < 256 ^ field_size f then Inr (le_bytes (field_size f) v) else Inl StructError)"
| "pack_field to_float f (FloatV x) = Inl StructError"

fun pack_fields :: "(nat \<Rightarrow> float32) \<Rightarrow> field list \<Rightarrow> py_value list \<Rightarrow> py_error + byte list" where
  "pack_fields to_float [] [] = Inr []"
| "pack_fields to_float (f # fs) (v # vs) =
     ebind (pack_field to_float f v) (\<lambda>b.
     ebind (pack_fields to_float fs vs) (\<lambda>bs. Inr (b @ bs)))"
| "pack_fields to_float _ _ = Inl StructError"

definition pack_uint :: "field \<Rightarrow> nat \<Rightarrow> py_error + byte list" where
  "pack_uint f v = pack_field (\<lambda>_. 0) f (IntV v)"

section \<open>Polygon data type converters (CollatedData/FromReadWrites.py)\<close>

text \<open>
  \<^verbatim>\<open>zip(idxs, idxs[1:], idxs[2:])\<close>: the windows of three consecutive indices.
\<close>

definition zip3 :: "'a list \<Rightarrow> ('a \<times> 'a \<times> 'a) list" where
  "zip3 idxs = zip idxs (zip (drop 1 idxs) (drop 2 idxs))"

text \<open>
  The body of the loop of \<^verbatim>\<open>triangle_strips_to_polys\<close>, with the loop counter
  \<open>i\<close> of \<^verbatim>\<open>enumerate\<close> and the list \<open>triangles\<close> built so far.
  \<^verbatim>\<open>tri = (tri[0 + order], tri[1 - order], tri[2])\<close> swaps the first two
  indices when \<open>order = 1\<close>; \<^verbatim>\<open>tri in triangles\<close> compares tuples.
\<close>

fun strips_loop :: "nat \<Rightarrow> ('a \<times> 'a \<times> 'a) list \<Rightarrow> ('a \<times> 'a \<times> 'a) list \<Rightarrow> ('a \<times> 'a \<times> 'a) list" where
  "strips_loop i [] triangles = triangles"
| "strips_loop i ((t0, t1, t2) # rest) triangles =
     (let order = i mod 2;
          tri = (if order = 0 then (t0, t1, t2) else (t1, t0, t2));
          triangle = set [fst tri, fst (snd tri), snd (snd tri)]
      in if \<not> (card triangle \<noteq> 3 \<or> tri \<in> set triangles)
         then strips_loop (Suc i) rest (triangles @ [tri])
         else strips_loop (Suc i) rest triangles)"

definition triangle_strips_to_polys :: "'a list \<Rightarrow> ('a \<times> 'a \<times> 'a) list" where
  "triangle_strips_to_polys idxs = strips_loop 0 (zip3 idxs) []"

text \<open>
  The rule of the loop in words: the candidate triangle of window \<open>k\<close>, the test
  that its three indices are pairwise distinct, and the removal of every later
  copy of an ordered triple (the first one stays).
\<close>

fun candidates :: "nat \<Rightarrow> ('a \<times> 'a \<times> 'a) list \<Rightarrow> ('a \<times> 'a \<times> 'a) list" where
  "candidates k [] = []"
| "candidates k ((a, b, c) # rest) =
     (if even k then (a, b, c) else (b, a, c)) # candidates (Suc k) rest"

fun pairwise_distinct :: "'a \<times> 'a \<times> 'a \<Rightarrow> bool" where
  "pairwise_distinct (a, b, c) = (a \<noteq> b \<and> a \<noteq> c \<and> b \<noteq> c)"

definition keep_first :: "'b list \<Rightarrow> 'b list" where
  "keep_first xs = rev (remdups (rev xs))"

definition index_set :: "'a \<times> 'a \<times> 'a \<Rightarrow> 'a set" where
  "index_set t = {fst t, fst (snd t), snd (snd t)}"

definition append_new :: "'b list \<Rightarrow> 'b \<Rightarrow> 'b list" where
  "append_new acc x = (if x \<in> set acc then acc else acc @ [x])"

section \<open>Keyframe bitmasks (add_anims, CollatedData/FromReadWrites.py)\<close>

text \<open>
  \<^verbatim>\<open>chunks(lst, n)\<close>: the slices \<^verbatim>\<open>lst[i:i + n]\<close> for \<^verbatim>\<open>i in range(0, len(lst), n)\<close>.
  \<^verbatim>\<open>range\<close> raises ValueError for step 0; \<^verbatim>\<open>add_anims\<close> calls it only
  with \<^verbatim>\<open>nframes != 0\<close>.
\<close>

function chunks_from :: "'a list \<Rightarrow> nat \<Rightarrow> 'a list list" where
  "chunks_from lst n =
     (if n = 0 \<or> lst = [] then [] else take n lst # chunks_from (drop n lst) n)"
  by pat_completeness auto
termination
  by (relation "measure (\<lambda>(lst, n). length lst)") auto

declare chunks_from.simps [simp del]

definition chunks :: "'a list \<Rightarrow> nat \<Rightarrow> py_error + 'a list list" where
  "chunks lst n = (if n = 0 then Inl ValueError else Inr (chunks_from lst n))"

text \<open>
  \<^verbatim>\<open>[j+cumulative_frames+1 for j, elem in enumerate(mask) if elem == '1']\<close>
\<close>

definition mask_frames :: "int \<Rightarrow> string \<Rightarrow> int list" where
  "mask_frames cumulative_frames bitmask =
     [int j + cumulative_frames + 1. (j, elem) \<leftarrow> enumerate 0 bitmask, elem = CHR ''1'']"

text \<open>
  One of the three loops \<^verbatim>\<open>for bone_idx, mask in zip(bone_idxs, masks)\<close> of a
  keyframe block (\<open>bitmask\<close> is the source's \<^verbatim>\<open>mask\<close>). \<open>masks\<close> is what the generator has not yielded yet, \<open>stream\<close>
  what the iterator over the channel's flat values has not yielded yet
  (\<^verbatim>\<open>itertools.islice(stream, len(frames))\<close> takes the next \<open>len(frames)\<close> values,
  fewer when the stream ends). \<open>fcurves_frames\<close> and \<open>fcurves_values\<close> are the
  dictionaries keyed by bone index; a key that is missing raises KeyError. The
  result carries the two dictionaries and what is left of the two iterators.
\<close>

fun expand_masks ::
  "int \<Rightarrow> nat list \<Rightarrow> string list \<Rightarrow> 'v list \<Rightarrow> (nat \<rightharpoonup> int list) \<Rightarrow> (nat \<rightharpoonup> 'v list)
   \<Rightarrow> py_error + ((nat \<rightharpoonup> int list) \<times> (nat \<rightharpoonup> 'v list) \<times> string list \<times> 'v list)" where
  "expand_masks cumulative_frames [] masks stream fcurves_frames fcurves_values =
     Inr (fcurves_frames, fcurves_values, masks, stream)"
| "expand_masks cumulative_frames (bone_idx # bone_idxs) [] stream fcurves_frames fcurves_values =
     Inr (fcurves_frames, fcurves_values, [], stream)"
| "expand_masks cumulative_frames (bone_idx # bone_idxs) (bitmask # masks) stream fcurves_frames fcurves_values =
     (let frames = mask_frames cumulative_frames bitmask;
          values = take (length frames) stream
      in case fcurves_frames bone_idx of
           None \<Rightarrow> Inl KeyError
         | Some old_frames \<Rightarrow>
             (case fcurves_values bone_idx of
                None \<Rightarrow> Inl KeyError
              | Some old_values \<Rightarrow>
                  expand_masks cumulative_frames bone_idxs masks (drop (length frames) stream)
                    (fcurves_frames(bone_idx \<mapsto> old_frames @ frames))
                    (fcurves_values(bone_idx \<mapsto> old_values @ values))))"

text \<open>
  The masks of a block: \<^verbatim>\<open>chunks(substructure.unknown_data_5, nframes)\<close> when
  \<^verbatim>\<open>nframes != 0\<close>, no mask otherwise.
\<close>

definition block_masks :: "string \<Rightarrow> nat \<Rightarrow> py_error + string list" where
  "block_masks unknown_data_5 nframes =
     (if nframes \<noteq> 0 then chunks unknown_data_5 nframes else Inr [])"

section \<open>Material records (FileReaders/GeomReader/MaterialReader.py)\<close>

text \<open>\<^verbatim>\<open>MaterialReader.shader_uniform_from_ids\<close>\<close>

definition shader_uniform_from_ids_items :: "(nat \<times> string) list" where
  "shader_uniform_from_ids_items =
    [(50, ''DiffuseTextureID''), (51, ''DiffuseColour''), (53, ''NormalMapTextureID''),
     (54, ''Bumpiness''), (56, ''SpecularStrength''), (57, ''SpecularPower''),
     (58, ''CubeMapTextureID''), (59, ''ReflectionStrength''), (60, ''FresnelExp''),
     (61, ''FresnelMin''), (62, ''FuzzySpecColor''), (63, ''SubColor''),
     (64, ''SurfaceColor''), (65, ''Rolloff''), (66, ''VelvetStrength''),
     (67, ''UnknownTextureSlot1''), (68, ''OverlayTextureID''), (69, ''UnknownTextureSlot2''),
     (70, ''OverlayBumpiness''), (71, ''OverlayStrength''), (72, ''ToonTextureID''),
     (75, ''Curvature''), (76, ''GlassStrength''), (77, ''UpsideDown''),
     (79, ''ParallaxBiasX''), (80, ''ParallaxBiasY''), (84, ''Time''),
     (85, ''ScrollSpeedSet1''), (88, ''ScrollSpeedSet2''), (91, ''ScrollSpeedSet3''),
     (94, ''OffsetSet1''), (97, ''OffsetSet2''), (100, ''DistortionStrength''),
     (113, ''LightMapStrength''), (114, ''LightMapPower''), (116, ''OffsetSet3''),
     (119, ''Fat''), (120, ''RotationSet1''), (123, ''RotationSet2''),
     (129, ''ScaleSet1''), (141, ''ZBias''), (142, ''UnknownTextureSlot3'')]"

definition shader_uniform_from_ids :: "nat \<rightharpoonup> string" where
  "shader_uniform_from_ids = map_of shader_uniform_from_ids_items"

text \<open>
  \<^verbatim>\<open>dict([reversed(i) for i in shader_uniform_from_ids.items()])\<close>: a later item
  replaces an earlier one with the same name.
\<close>

definition shader_uniform_from_names :: "string \<rightharpoonup> nat" where
  "shader_uniform_from_names =
     map_of (rev (map (\<lambda>(i, name). (name, i)) shader_uniform_from_ids_items))"

text \<open>\<^verbatim>\<open>d[k]\<close> on a dictionary: KeyError for a missing key.\<close>

definition lookup :: "('k \<rightharpoonup> 'v) \<Rightarrow> 'k \<Rightarrow> py_error + 'v" where
  "lookup d k = (case d k of None \<Rightarrow> Inl KeyError | Some v \<Rightarrow> Inr v)"

text \<open>
  Modelled from the spec: the uniform classes of
  \<^verbatim>\<open>FileReaders/GeomReader/ShaderUniforms.py\<close> (the table
  \<^verbatim>\<open>shader_uniforms_from_defn\<close>) are not among the sources. The decoder looks a
  class up by (name, float count) and gives it the payload; the encoder reads
  \<^verbatim>\<open>num_floats\<close> and \<^verbatim>\<open>data\<close> back. The object is modelled as these two
  fields; the keys of the table are the parameter \<open>defn\<close> of the decoder, and
  \<open>shader_uniforms_from_defn_keys\<close> holds the (name, float count) pairs that the
  specification lists.
\<close>

record shader_uniform =
  num_floats :: nat
  data :: "py_value list"

definition shader_uniforms_from_defn_keys :: "(string \<times> nat) list" where
  "shader_uniforms_from_defn_keys =
    [(''DiffuseTextureID'', 0), (''DiffuseColour'', 4), (''NormalMapTextureID'', 0),
     (''Bumpiness'', 1), (''SpecularStrength'', 1), (''SpecularPower'', 1),
     (''CubeMapTextureID'', 0), (''ToonTextureID'', 0), (''Time'', 1), (''ZBias'', 1)]"

definition shader_uniforms_from_defn ::
  "(string \<times> nat) list \<Rightarrow> string \<times> nat \<Rightarrow> py_error + (py_value list \<Rightarrow> shader_uniform)" where
  "shader_uniforms_from_defn defn key =
     (if key \<in> set defn then Inr (\<lambda>payload. \<lparr>num_floats = snd key, data = payload\<rparr>)
      else Inl KeyError)"

text \<open>
  Modelled from the spec: \<^verbatim>\<open>BaseRW.pad_byte\<close> is not among the sources; the
  padding of a record is zero bytes.
\<close>

definition pad_byte :: "byte list" where
  "pad_byte = [0]"

text \<open>
  \<^verbatim>\<open>datum == 0\<close>: an integer 0, or a float that is plus or minus zero.
\<close>

fun is_zero :: "py_value \<Rightarrow> bool" where
  "is_zero (IntV v) = (v = 0)"
| "is_zero (FloatV x) = (x = 0 \<or> x = 0x80000000)"

text \<open>
  \<^verbatim>\<open>for i, datum in enumerate(xs): assert datum == 0\<close>
\<close>

fun assert_all_zero :: "py_value list \<Rightarrow> py_error + unit" where
  "assert_all_zero [] = Inr ()"
| "assert_all_zero (datum # rest) =
     ebind (py_assert (is_zero datum)) (\<lambda>_. assert_all_zero rest)"

text \<open>\<^verbatim>\<open>shader_uniform_factory(data)\<close>; the 24 bytes \<^verbatim>\<open>data\<close> are \<open>raw\<close> here.\<close>

definition shader_uniform_factory ::
  "(string \<times> nat) list \<Rightarrow> byte list \<Rightarrow> py_error + (string \<times> shader_uniform)" where
  "shader_uniform_factory defn raw =
     (let payload = take 16 raw in
      ebind (item raw 16) (\<lambda>type_id.
      ebind (lookup shader_uniform_from_ids (unat type_id)) (\<lambda>uniform_type.
      ebind (item raw 17) (\<lambda>num_floats_byte.
      let num_floats = unat num_floats_byte in
      ebind (unpack_uint U16 (take 2 (drop 18 raw))) (\<lambda>always_65280.
      ebind (unpack_uint U32 (drop 20 raw)) (\<lambda>padding_0x14.
      ebind (py_assert (always_65280 = 65280)) (\<lambda>_.
      ebind (py_assert (padding_0x14 = 0)) (\<lambda>_.
      ebind
        (if num_floats = 0 then
           ebind (unpack (replicate 8 U16) payload) (\<lambda>payload.
           ebind (assert_all_zero (take 5 (drop 1 payload))) (\<lambda>_.
           Inr (take 1 payload @ drop 6 payload)))
         else
           ebind (unpack (replicate num_floats F32) (take (num_floats * 4) payload)) (\<lambda>payload.
           ebind (assert_all_zero (drop num_floats payload)) (\<lambda>_.
           Inr (take num_floats payload))))
        (\<lambda>payload.
      ebind (shader_uniforms_from_defn defn (uniform_type, num_floats)) (\<lambda>cls.
      Inr (uniform_type, cls payload)))))))))))"

text \<open>
  \<^verbatim>\<open>shader_uniform_data_factory(uniform_type, shader_uniform)\<close>.
  \<^verbatim>\<open>shader_uniform.data[0]\<close> raises IndexError on empty data;
  \<^verbatim>\<open>4*pad_byte*(4 - num_floats)\<close> is empty when \<open>num_floats > 4\<close>.
\<close>

definition shader_uniform_data_factory ::
  "(nat \<Rightarrow> float32) \<Rightarrow> string \<Rightarrow> shader_uniform \<Rightarrow> py_error + byte list" where
  "shader_uniform_data_factory to_float uniform_type shader_uniform =
     ebind
       (if num_floats shader_uniform = 0 then
          ebind (item (data shader_uniform) 0) (\<lambda>d0.
          ebind (pack_fields to_float [U16] [d0]) (\<lambda>b0.
          ebind (pack_fields to_float [U16, U16] (drop 1 (data shader_uniform))) (\<lambda>b1.
          Inr (b0 @ concat (replicate 10 pad_byte) @ b1))))
        else
          ebind (pack_fields to_float (replicate (num_floats shader_uniform) F32) (data shader_uniform)) (\<lambda>b.
          Inr (b @ concat (replicate (4 - num_floats shader_uniform) (concat (replicate 4 pad_byte))))))
       (\<lambda>bytes0.
     ebind (lookup shader_uniform_from_names uniform_type) (\<lambda>type_id.
     ebind (pack_uint U8 type_id) (\<lambda>bytes1.
     ebind (pack_uint U8 (num_floats shader_uniform)) (\<lambda>bytes2.
     ebind (pack_uint U16 65280) (\<lambda>bytes3.
     ebind (pack_uint U32 0) (\<lambda>bytes4.
     Inr (bytes0 @ bytes1 @ bytes2 @ bytes3 @ bytes4)))))))"

text \<open>\<^verbatim>\<open>possibly_umc_types\<close>: 'If', 'II' and 'HHI'.\<close>

definition possibly_umc_types :: "nat \<rightharpoonup> field list" where
  "possibly_umc_types =
     map_of [(160, [U32, F32]), (161, [U32, U32]), (162, [U32, U32]), (163, [U16, U16, U32]),
             (164, [U32, U32]), (166, [U32, U32]), (167, [U32, U32]), (168, [U32, U32]),
             (169, [U32, U32]), (172, [U32, U32])]"

text \<open>\<^verbatim>\<open>umc_factory(data)\<close>; the 24 bytes \<^verbatim>\<open>data\<close> are \<open>raw\<close> here.\<close>

definition umc_factory :: "byte list \<Rightarrow> py_error + (nat \<times> py_value list)" where
  "umc_factory raw =
     ebind (unpack_uint U16 (take 2 (drop 8 raw))) (\<lambda>padding_0x08.
     ebind (unpack_uint U16 (take 2 (drop 10 raw))) (\<lambda>padding_0x0A.
     ebind (unpack_uint U16 (take 2 (drop 12 raw))) (\<lambda>padding_0x0C.
     ebind (unpack_uint U16 (take 2 (drop 14 raw))) (\<lambda>padding_0x0E.
     ebind (py_assert (padding_0x08 = 0)) (\<lambda>_.
     ebind (py_assert (padding_0x0A = 0)) (\<lambda>_.
     ebind (py_assert (padding_0x0C = 0)) (\<lambda>_.
     ebind (py_assert (padding_0x0E = 0)) (\<lambda>_.
     ebind (item raw 16) (\<lambda>type_byte.
     let maybe_component_type = unat type_byte in
     ebind (item raw 17) (\<lambda>always_100.
     ebind (unpack_uint U16 (take 2 (drop 18 raw))) (\<lambda>always_65280.
     ebind (unpack_uint U32 (take 4 (drop 20 raw))) (\<lambda>padding_0x14.
     ebind (py_assert (unat always_100 = 100)) (\<lambda>_.
     ebind (py_assert (always_65280 = 65280)) (\<lambda>_.
     ebind (py_assert (padding_0x14 = 0)) (\<lambda>_.
     ebind (lookup possibly_umc_types maybe_component_type) (\<lambda>fmt.
     ebind (unpack fmt (take 8 raw)) (\<lambda>values.
     Inr (maybe_component_type, values))))))))))))))))))"

text \<open>\<^verbatim>\<open>umc_data_factory(maybe_component_type, data)\<close>\<close>

definition umc_data_factory ::
  "(nat \<Rightarrow> float32) \<Rightarrow> nat \<Rightarrow> py_value list \<Rightarrow> py_error + byte list" where
  "umc_data_factory to_float maybe_component_type values =
     ebind (lookup possibly_umc_types maybe_component_type) (\<lambda>fmt.
     ebind (pack_fields to_float fmt values) (\<lambda>bytes0.
     ebind (pack_uint U16 0) (\<lambda>z1.
     ebind (pack_uint U16 0) (\<lambda>z2.
     ebind (pack_uint U16 0) (\<lambda>z3.
     ebind (pack_uint U16 0) (\<lambda>z4.
     ebind (pack_uint U8 maybe_component_type) (\<lambda>bytes1.
     ebind (pack_uint U8 100) (\<lambda>bytes2.
     ebind (pack_uint U16 65280) (\<lambda>bytes3.
     ebind (pack_uint U32 0) (\<lambda>bytes4.
     let packed = bytes0 @ z1 @ z2 @ z3 @ z4 @ bytes1 @ bytes2 @ bytes3 @ bytes4 in
     ebind (py_assert (length packed = 24)) (\<lambda>_. Inr packed)))))))))))"

section \<open>Mesh assembly (add_meshes, CollatedData/FromReadWrites.py)\<close>











section \<open>Material assembly (add_materials, CollatedData/FromReadWrites.py)\<close>

















section \<open>Skeleton assembly (add_skeleton, CollatedData/FromReadWrites.py)\<close>










section \<open>Properties\<close>

subsection \<open>Shader identifier\<close>

lemma unhex_hexdigit: "n < 16 \<Longrightarrow> unhex (hexdigit n) = Some n"
proof -
  assume "n < 16"
  then have "n \<in> {0,1,2,3,4,5,6,7,8,9,10,11,12,13,14,15}"
    by (simp only: insert_iff empty_iff) arith
  then show ?thesis
    by (auto simp: unhex_def hexdigit_def)
qed

lemma hexdigit_plain: "n < 16 \<Longrightarrow> \<not> is_space (hexdigit n) \<and> hexdigit n \<noteq> CHR ''_''"
proof -
  assume "n < 16"
  then have "n \<in> {0,1,2,3,4,5,6,7,8,9,10,11,12,13,14,15}"
    by (simp only: insert_iff empty_iff) arith
  then show ?thesis
    by (auto simp: is_space_def hexdigit_def)
qed

lemma byte_of_nibbles: "word_of_nat (16 * (unat b div 16) + unat b mod 16) = (b :: byte)"
  by simp

lemma high_nibble_less: "unat (b::byte) div 16 < 16"
proof -
  have "unat b < 256" using unsigned_less [of b] by simp
  then show ?thesis by simp
qed

lemma fromhex_bytes_hex: "fromhex (bytes_hex bs) = Inr bs"
proof (induction bs)
  case Nil
  show ?case by (simp add: bytes_hex_def)
next
  case (Cons b bs)
  then show ?case
    by (simp add: bytes_hex_def hex_byte_def unhex_hexdigit hexdigit_plain high_nibble_less)
qed

lemma split_no_sep: "sep \<notin> set a \<Longrightarrow> split sep a = [a]"
  by (induction a) auto

lemma split_at_sep: "sep \<notin> set a \<Longrightarrow> split sep (a @ sep # r) = a # split sep r"
  by (induction a) auto

lemma hex_byte_plain: "CHR ''_'' \<notin> set (hex_byte b)"
  using hexdigit_plain [of "unat b div 16"] hexdigit_plain [of "unat b mod 16"] high_nibble_less [of b]
  by (auto simp: hex_byte_def)

lemma bytes_hex_plain: "CHR ''_'' \<notin> set (bytes_hex bs)"
  by (induction bs) (simp_all add: bytes_hex_def hex_byte_plain)

lemma take_drop_16:
  "length (b :: 'a list) = 16 \<Longrightarrow> take 4 b @ take 4 (drop 4 b) @ take 4 (drop 8 b) @ take 4 (drop 12 b) = b"
proof -
  assume l: "length b = 16"
  have a: "take 4 (drop 12 b) = drop 4 (drop 8 b)" using l by simp
  have b: "take 4 (drop 8 b) @ drop 4 (drop 8 b) = drop 4 (drop 4 b)"
    by (simp only: append_take_drop_id) simp
  have c: "take 4 (drop 4 b) @ drop 4 (drop 4 b) = drop 4 b"
    by (simp only: append_take_drop_id)
  have d: "take 4 b @ drop 4 b = b"
    by (simp only: append_take_drop_id)
  show ?thesis by (simp only: a b c d)
qed

lemma split_four:
  "split CHR ''_'' (join ''_'' [bytes_hex a, bytes_hex b, bytes_hex c, bytes_hex d])
     = [bytes_hex a, bytes_hex b, bytes_hex c, bytes_hex d]"
  by (simp add: split_at_sep split_no_sep bytes_hex_plain)

lemma hex_part_ok:
  "k < length ps \<Longrightarrow> ps ! k = bytes_hex bs \<Longrightarrow> hex_part ps k = Inr (rev bs)"
  by (simp add: hex_part_def item_def fromhex_bytes_hex)

lemma length_bytes_hex: "length (bytes_hex bs) = 2 * length bs"
  by (induction bs) (simp_all add: bytes_hex_def hex_byte_def)

text \<open>
  C3: for a 16-byte shader identifier, the text form is the four 4-byte groups, each
  byte-reversed and hex-encoded in lower case, joined with underscores (35
  characters); bytes \<open>00 01 \<dots> 0F\<close> give
  \<open>03020100_07060504_0b0a0908_0f0e0d0c\<close>; and re-encoding the text form gives the
  16 bytes back.
\<close>

theorem shader_hex_round_trip:
  assumes "length b = 16"
  shows "interpret_shader_hex b =
           bytes_hex (rev (take 4 b)) @ ''_'' @ bytes_hex (rev (take 4 (drop 4 b))) @ ''_'' @
           bytes_hex (rev (take 4 (drop 8 b))) @ ''_'' @ bytes_hex (rev (take 4 (drop 12 b)))
       \<and> length (interpret_shader_hex b) = 35
       \<and> reinterpret_shader_hex (interpret_shader_hex b) = Inr b
       \<and> interpret_shader_hex [0, 1, 2, 3, 4, 5, 6, 7, 8, 9, 10, 11, 12, 13, 14, 15]
           = ''03020100_07060504_0b0a0908_0f0e0d0c''"
proof (intro conjI)
  show "interpret_shader_hex b =
           bytes_hex (rev (take 4 b)) @ ''_'' @ bytes_hex (rev (take 4 (drop 4 b))) @ ''_'' @
           bytes_hex (rev (take 4 (drop 8 b))) @ ''_'' @ bytes_hex (rev (take 4 (drop 12 b)))"
    by (simp add: interpret_shader_hex_def)
  show "length (interpret_shader_hex b) = 35"
    using assms by (simp add: interpret_shader_hex_def length_bytes_hex)
  show "reinterpret_shader_hex (interpret_shader_hex b) = Inr b"
    unfolding reinterpret_shader_hex_def interpret_shader_hex_def Let_def split_four
    using take_drop_16 [of b] assms by (simp add: hex_part_ok)
  show "interpret_shader_hex [0, 1, 2, 3, 4, 5, 6, 7, 8, 9, 10, 11, 12, 13, 14, 15]
           = ''03020100_07060504_0b0a0908_0f0e0d0c''"
    by (simp add: interpret_shader_hex_def bytes_hex_def hex_byte_def hexdigit_def)
qed

theorem shader_hex_round_trip_witness:
  "length [0, 1, 2, 3, 4, 5, 6, 7, 8, 9, 10, 11, 12, 13, 14, 15 :: byte] = 16
   \<and> reinterpret_shader_hex ''03020100_07060504_0b0a0908_0f0e0d0c''
       = Inr [0, 1, 2, 3, 4, 5, 6, 7, 8, 9, 10, 11, 12, 13, 14, 15]"
proof -
  have l: "length [0, 1, 2, 3, 4, 5, 6, 7, 8, 9, 10, 11, 12, 13, 14, 15 :: byte] = 16"
    by simp
  let ?b = "[0, 1, 2, 3, 4, 5, 6, 7, 8, 9, 10, 11, 12, 13, 14, 15 :: byte]"
  from shader_hex_round_trip [OF l]
  have "reinterpret_shader_hex (interpret_shader_hex ?b) = Inr ?b"
    and "interpret_shader_hex ?b = ''03020100_07060504_0b0a0908_0f0e0d0c''"
    by blast+
  then show ?thesis by (simp only: l)
qed

subsection \<open>Triangle strips\<close>

lemma card_three_iff: "card (set [a, b, c]) = 3 \<longleftrightarrow> a \<noteq> b \<and> a \<noteq> c \<and> b \<noteq> c"
  by (auto simp: card_insert_if)

lemma strips_loop_foldl:
  "strips_loop i ts acc = foldl append_new acc (filter pairwise_distinct (candidates i ts))"
proof (induction ts arbitrary: i acc)
  case Nil
  show ?case by simp
next
  case (Cons t ts)
  obtain a b c where t: "t = (a, b, c)" by (cases t) auto
  show ?case
    unfolding t using Cons.IH
    by (auto simp: Let_def card_insert_if append_new_def even_iff_mod_2_eq_zero)
qed

lemma remdups_later_copy: "x \<in> set zs \<Longrightarrow> remdups (ys @ x # zs) = remdups (ys @ zs)"
  by (induction ys) auto

lemma foldl_append_new: "distinct acc \<Longrightarrow> foldl append_new acc xs = keep_first (acc @ xs)"
proof (induction xs arbitrary: acc)
  case Nil
  then show ?case by (simp add: keep_first_def distinct_remdups_id)
next
  case (Cons x xs)
  show ?case
  proof (cases "x \<in> set acc")
    case True
    have "foldl append_new acc (x # xs) = foldl append_new acc xs"
      using True by (simp add: append_new_def)
    also have "\<dots> = keep_first (acc @ xs)"
      by (rule Cons.IH [OF Cons.prems])
    also have "\<dots> = keep_first (acc @ x # xs)"
      using True by (simp add: keep_first_def remdups_later_copy)
    finally show ?thesis .
  next
    case False
    then have d: "distinct (acc @ [x])" using Cons.prems by simp
    have "foldl append_new acc (x # xs) = foldl append_new (acc @ [x]) xs"
      using False by (simp add: append_new_def)
    also have "\<dots> = keep_first ((acc @ [x]) @ xs)"
      by (rule Cons.IH [OF d])
    finally show ?thesis by simp
  qed
qed

text \<open>
  C2 (as the code has it): triangle \<open>k\<close> of a strip is the window
  \<open>(i_k, i_{k+1}, i_{k+2})\<close> with its first two indices swapped when \<open>k\<close> is odd;
  a triangle whose indices are not pairwise distinct is skipped; a triangle equal,
  as an ordered triple after the swap, to one already emitted is skipped (first
  one stays). The strip \<open>[0,1,2,3,4]\<close> gives \<open>(0,1,2), (2,1,3), (2,3,4)\<close>.
\<close>

theorem triangle_strips_to_polys_ordered_dedup:
  "triangle_strips_to_polys idxs =
     keep_first (filter pairwise_distinct (candidates 0 (zip3 idxs)))
   \<and> triangle_strips_to_polys [0, 1, 2, 3, 4 :: nat] = [(0, 1, 2), (2, 1, 3), (2, 3, 4)]"
proof
  show "triangle_strips_to_polys idxs =
     keep_first (filter pairwise_distinct (candidates 0 (zip3 idxs)))"
    by (simp add: triangle_strips_to_polys_def strips_loop_foldl foldl_append_new)
  show "triangle_strips_to_polys [0, 1, 2, 3, 4 :: nat] = [(0, 1, 2), (2, 1, 3), (2, 3, 4)]"
    by (simp add: triangle_strips_to_polys_def zip3_def card_insert_if)
qed

theorem triangle_strips_to_polys_ordered_dedup_witness:
  "triangle_strips_to_polys [0, 1, 1, 2, 0, 1 :: nat] = [(1, 2, 0), (0, 2, 1)]"
proof -
  have "keep_first (filter pairwise_distinct (candidates 0 (zip3 [0, 1, 1, 2, 0, 1 :: nat])))
          = [(1, 2, 0), (0, 2, 1)]"
    by (simp add: keep_first_def zip3_def)
  with triangle_strips_to_polys_ordered_dedup [of "[0, 1, 1, 2, 0, 1 :: nat]"]
  show ?thesis by simp
qed

text \<open>
  C2 as the claim words it fails: in the strip \<open>[0,1,2,0,1]\<close> the second triangle
  \<open>(2,1,0)\<close> has the index set of the first, \<open>(0,1,2)\<close>, and is emitted all the same.
\<close>

theorem triangle_strips_unordered_dedup_counterexample:
  "triangle_strips_to_polys [0, 1, 2, 0, 1 :: nat] = [(0, 1, 2), (2, 1, 0), (2, 0, 1)]
   \<and> index_set (2, 1, 0 :: nat) = index_set (0, 1, 2)
   \<and> \<not> distinct (map index_set (triangle_strips_to_polys [0, 1, 2, 0, 1 :: nat]))"
proof -
  have r: "triangle_strips_to_polys [0, 1, 2, 0, 1 :: nat] = [(0, 1, 2), (2, 1, 0), (2, 0, 1)]"
    by (simp add: triangle_strips_to_polys_def zip3_def card_insert_if)
  have s: "index_set (2, 1, 0 :: nat) = index_set (0, 1, 2)"
    by (auto simp: index_set_def)
  show ?thesis unfolding r using s by simp
qed

subsection \<open>Keyframe bitmasks\<close>

lemma mask_frames_set:
  "set (mask_frames c bm) = {c + int j + 1 | j. j < length bm \<and> bm ! j = CHR ''1''}"
proof (intro set_eqI iffI)
  fix x assume "x \<in> set (mask_frames c bm)"
  then obtain p where p: "p \<in> set (enumerate 0 bm)" "snd p = CHR ''1''" "x = int (fst p) + c + 1"
    by (auto simp: mask_frames_def split: if_splits)
  from p(1) have "fst p < length bm" "bm ! fst p = snd p"
    by (simp_all add: in_set_enumerate_eq)
  with p show "x \<in> {c + int j + 1 | j. j < length bm \<and> bm ! j = CHR ''1''}"
    by auto
next
  fix x assume "x \<in> {c + int j + 1 | j. j < length bm \<and> bm ! j = CHR ''1''}"
  then obtain j where j: "j < length bm" "bm ! j = CHR ''1''" "x = c + int j + 1"
    by blast
  then have "(j, CHR ''1'') \<in> set (enumerate 0 bm)"
    by (simp add: in_set_enumerate_eq)
  with j(3) show "x \<in> set (mask_frames c bm)"
    by (force simp: mask_frames_def)
qed

lemma length_mask_frames: "length (mask_frames c bm) = length (filter (\<lambda>e. e = CHR ''1'') bm)"
  unfolding mask_frames_def
proof -
  have "length [int j + c + 1. (j, elem) \<leftarrow> enumerate n bm, elem = CHR ''1'']
       = length (filter (\<lambda>e. e = CHR ''1'') bm)" for n
    by (induction bm arbitrary: n) auto
  then show "length [int j + c + 1. (j, elem) \<leftarrow> enumerate 0 bm, elem = CHR ''1'']
       = length (filter (\<lambda>e. e = CHR ''1'') bm)" .
qed


lemma enum_frames_lower:
  "x \<in> set [int j + c + 1. (j, elem) \<leftarrow> enumerate n bm, elem = CHR ''1''] \<Longrightarrow> int n + c + 1 \<le> x"
  by (auto simp: in_set_enumerate_eq split: if_splits)

lemma enum_frames_sorted:
  "sorted_wrt (<) [int j + c + 1. (j, elem) \<leftarrow> enumerate n bm, elem = CHR ''1'']"
proof (induction bm arbitrary: n)
  case Nil
  show ?case by simp
next
  case (Cons e bm)
  have "int n + c + 1 < x"
    if "x \<in> set [int j + c + 1. (j, elem) \<leftarrow> enumerate (Suc n) bm, elem = CHR ''1'']" for x
    using enum_frames_lower [OF that] by simp
  with Cons.IH [of "Suc n"] show ?case by auto
qed

lemma mask_frames_sorted: "sorted_wrt (<) (mask_frames c bm)"
  by (simp add: mask_frames_def enum_frames_sorted)

lemma chunks_from_concat:
  assumes "n \<noteq> 0" and "\<forall>m \<in> set ms. length m = n"
  shows "chunks_from (concat ms) n = ms"
  using assms(2)
proof (induction ms)
  case Nil
  show ?case by (subst chunks_from.simps) simp
next
  case (Cons m ms)
  then have m: "length m = n" and rest: "\<forall>m \<in> set ms. length m = n"
    by simp_all
  from m assms(1) have ne: "m @ concat ms \<noteq> []"
    by auto
  have "chunks_from (m @ concat ms) n
          = take n (m @ concat ms) # chunks_from (drop n (m @ concat ms)) n"
    using assms(1) ne by (subst chunks_from.simps) simp
  also have "\<dots> = m # chunks_from (concat ms) n"
    using m by simp
  finally show ?case
    using Cons.IH [OF rest] by simp
qed

lemma block_masks_concat:
  assumes "n \<noteq> 0" and "\<forall>m \<in> set ms. length m = n"
  shows "block_masks (concat ms) n = Inr ms"
  using assms by (simp add: block_masks_def chunks_def chunks_from_concat)

text \<open>
  C4 (as the code has it): in a keyframe block with cumulative frame count \<open>c\<close>
  and span \<open>n \<noteq> 0\<close>, \<^verbatim>\<open>unknown_data_5\<close> is cut into bitmasks of length \<open>n\<close>;
  for a bone that has curves, a bitmask gives the additional frames
  \<open>{c + j + 1 | bitmask[j] = '1'}\<close>, in increasing order, appended to the bone's
  frames; the bone's values get the next unread values of the channel's stream in
  file order, one for each of the \<open>k\<close> marked frames while the stream lasts
  (\<open>min k (length stream)\<close> values), and the loop goes on with the stream
  after them. Cumulative frame 10 and bitmask \<open>1010\<close> give the frames 11 and 13.
\<close>

theorem bitmask_expansion_islice:
  assumes "length bitmask = n"
    and "fcurves_frames bone_idx = Some old_frames"
    and "fcurves_values bone_idx = Some old_values"
    and "k = length (filter (\<lambda>elem. elem = CHR ''1'') bitmask)"
    and "n \<noteq> 0" and "\<forall>m \<in> set ms. length m = n"
  shows "block_masks (concat ms) n = Inr ms
     \<and> set (mask_frames c bitmask) = {c + int j + 1 | j. j < n \<and> bitmask ! j = CHR ''1''}
     \<and> sorted_wrt (<) (mask_frames c bitmask)
     \<and> length (mask_frames c bitmask) = k
     \<and> expand_masks c (bone_idx # bone_idxs) (bitmask # masks) stream fcurves_frames fcurves_values
         = expand_masks c bone_idxs masks (drop k stream)
             (fcurves_frames(bone_idx \<mapsto> old_frames @ mask_frames c bitmask))
             (fcurves_values(bone_idx \<mapsto> old_values @ take k stream))
     \<and> length (take k stream) = min k (length stream)
     \<and> mask_frames 10 ''1010'' = [11, 13]"
proof (intro conjI)
  show "block_masks (concat ms) n = Inr ms"
    by (rule block_masks_concat [OF assms(5,6)])
  show "set (mask_frames c bitmask) = {c + int j + 1 | j. j < n \<and> bitmask ! j = CHR ''1''}"
    using assms(1) by (simp add: mask_frames_set)
  show "sorted_wrt (<) (mask_frames c bitmask)"
    by (rule mask_frames_sorted)
  show len: "length (mask_frames c bitmask) = k"
    using assms(4) by (simp add: length_mask_frames)
  show "expand_masks c (bone_idx # bone_idxs) (bitmask # masks) stream fcurves_frames fcurves_values
         = expand_masks c bone_idxs masks (drop k stream)
             (fcurves_frames(bone_idx \<mapsto> old_frames @ mask_frames c bitmask))
             (fcurves_values(bone_idx \<mapsto> old_values @ take k stream))"
    using assms(2,3) len by (simp add: Let_def)
  show "length (take k stream) = min k (length stream)"
    by simp
  show "mask_frames 10 ''1010'' = [11, 13]"
    by (simp add: mask_frames_def enumerate_eq_zip upt_rec)
qed

theorem bitmask_expansion_islice_witness:
  "block_masks ''10100110'' 4 = Inr [''1010'', ''0110'']
   \<and> expand_masks 10 [0] [''1010''] [7, 8, 9 :: nat] [0 \<mapsto> [10]] [0 \<mapsto> [5]]
     = Inr ([0 \<mapsto> [10, 11, 13]], [0 \<mapsto> [5, 7, 8]], [], [9])"
proof -
  have n: "length ''1010'' = 4"
    by simp
  have f: "[0 \<mapsto> [10 :: int]] (0 :: nat) = Some [10]"
    by simp
  have v: "[0 \<mapsto> [5 :: nat]] (0 :: nat) = Some [5]"
    by simp
  have k: "(2::nat) = length (filter (\<lambda>elem. elem = CHR ''1'') ''1010'')"
    by simp
  have n0: "(4::nat) \<noteq> 0"
    by simp
  have ms: "\<forall>m \<in> set [''1010'', ''0110'']. length m = 4"
    by simp
  note all = bitmask_expansion_islice [where c = 10 and bone_idxs = "[]" and masks = "[]"
        and stream = "[7, 8, 9 :: nat]" and bone_idx = 0
        and fcurves_frames = "[0 \<mapsto> [10]]" and fcurves_values = "[0 \<mapsto> [5]]",
        OF n f v k n0 ms]
  have blk: "block_masks (concat [''1010'', ''0110'']) 4 = Inr [''1010'', ''0110'']"
    using all by (elim conjE)
  have frames: "mask_frames 10 ''1010'' = [11, 13]"
    using all by (elim conjE)
  have "expand_masks 10 [0] [''1010''] [7, 8, 9 :: nat] [0 \<mapsto> [10]] [0 \<mapsto> [5]]
      = expand_masks 10 [] [] (drop 2 [7, 8, 9 :: nat])
          ([0 \<mapsto> [10]](0 \<mapsto> [10] @ mask_frames 10 ''1010''))
          ([0 \<mapsto> [5]](0 \<mapsto> [5] @ take 2 [7, 8, 9]))"
    using all by (elim conjE)
  then show ?thesis
    using blk by (simp add: frames)
qed

text \<open>
  C4 as the claim words it fails when the stream ends early: with one value left,
  the bitmask \<open>1010\<close> marks the frames 11 and 13, and only frame 11 gets a value.
\<close>

theorem bitmask_short_stream_counterexample:
  "expand_masks 10 [0] [''1010''] [7 :: nat] [0 \<mapsto> [10]] [0 \<mapsto> [5]]
     = Inr ([0 \<mapsto> [10, 11, 13]], [0 \<mapsto> [5, 7]], [], [])"
  by (simp add: mask_frames_def enumerate_eq_zip upt_rec)

subsection \<open>Material records\<close>

lemma ebind_Inr: "ebind (Inr x) f = f x"
  by (simp add: ebind_def)

lemma ebind_Inl: "ebind (Inl e) f = Inl e"
  by (simp add: ebind_def)

lemma ebind_weak_cong: "m = m' \<Longrightarrow> ebind m f = ebind m' f"
  by simp

lemma ebind_eq_Inr: "ebind m f = Inr y \<longleftrightarrow> (\<exists>x. m = Inr x \<and> f x = Inr y)"
  by (cases m) (simp_all add: ebind_def)

lemma py_assert_eq_Inr: "py_assert c = Inr u \<longleftrightarrow> c"
  by (simp add: py_assert_def)

lemma le_nat_bound: "le_nat bs < 256 ^ length bs"
proof (induction bs)
  case Nil
  show ?case by simp
next
  case (Cons b bs)
  have "unat b < 256" using unsigned_less [of b] by simp
  with Cons show ?case by simp
qed

lemma le_bytes_le_nat: "le_bytes (length bs) (le_nat bs) = bs"
proof (induction bs)
  case Nil
  show ?case by simp
next
  case (Cons b bs)
  have b: "unat b < 256" using unsigned_less [of b] by simp
  then have "(unat b + 256 * le_nat bs) mod 256 = unat b"
    and "(unat b + 256 * le_nat bs) div 256 = le_nat bs"
    by simp_all
  with Cons show ?case by simp
qed

lemma le_nat_eqD:
  assumes "le_nat bs = v"
  shows "bs = le_bytes (length bs) v"
proof -
  have "le_bytes (length bs) (le_nat bs) = bs"
    by (rule le_bytes_le_nat)
  then show ?thesis
    unfolding assms by (rule sym)
qed

lemma le_bytes_numeral:
  "le_bytes (numeral k) v = word_of_nat (v mod 256) # le_bytes (pred_numeral k) (v div 256)"
proof -
  have "le_bytes (Suc (pred_numeral k)) v
          = word_of_nat (v mod 256) # le_bytes (pred_numeral k) (v div 256)"
    by (rule le_bytes.simps(2))
  then show ?thesis
    unfolding numeral_eq_Suc [of k] .
qed

lemma pack_int_field:
  assumes "f \<noteq> F32" "length bs = field_size f"
  shows "pack_field to_float f (IntV (le_nat bs)) = Inr bs"
proof -
  have "pack_field to_float f (IntV (le_nat bs)) =
          (if le_nat bs < 256 ^ field_size f then Inr (le_bytes (field_size f) (le_nat bs))
           else Inl StructError)"
    using assms(1) by (cases f) simp_all
  also have "\<dots> = Inr bs"
    using le_nat_bound [of bs] le_bytes_le_nat [of bs] by (simp only: assms(2) [symmetric] if_True)
  finally show ?thesis .
qed

lemma pack_unpack_field:
  assumes l: "length bs = field_size f"
  shows "pack_field to_float f (unpack_field f bs) = Inr bs"
proof (cases "f = F32")
  case True
  have "le_nat bs < 256 ^ 4" using le_nat_bound [of bs] l True by simp
  then have "unat (word_of_nat (le_nat bs) :: 32 word) = le_nat bs"
    by (simp add: unat_of_nat)
  moreover have "le_bytes 4 (le_nat bs) = bs"
    using le_bytes_le_nat [of bs] l True by simp
  ultimately show ?thesis using True by simp
next
  case False
  then have "unpack_field f bs = IntV (le_nat bs)"
    by (cases f) simp_all
  with pack_int_field [OF False l] show ?thesis by simp
qed

lemma pack_unpack_fields:
  "length bs = sum_list (map field_size fmt) \<Longrightarrow>
   pack_fields to_float fmt (unpack_fields fmt bs) = Inr bs"
proof (induction fmt arbitrary: bs)
  case Nil
  then show ?case by simp
next
  case (Cons f fmt)
  have 1: "length (take (field_size f) bs) = field_size f" using Cons.prems by simp
  have 2: "length (drop (field_size f) bs) = sum_list (map field_size fmt)"
    using Cons.prems by simp
  show ?case
    by (simp add: pack_unpack_field [OF 1] Cons.IH [OF 2] ebind_Inr)
qed

lemma list24:
  assumes "length (xs :: 'a list) = 24"
  obtains x0 x1 x2 x3 x4 x5 x6 x7 x8 x9 x10 x11 x12 x13 x14 x15 x16 x17 x18 x19 x20 x21 x22 x23
  where "xs = [x0, x1, x2, x3, x4, x5, x6, x7, x8, x9, x10, x11, x12, x13, x14, x15,
               x16, x17, x18, x19, x20, x21, x22, x23]"
proof -
  from assms have "\<exists>x0 x1 x2 x3 x4 x5 x6 x7 x8 x9 x10 x11 x12 x13 x14 x15 x16 x17 x18 x19 x20 x21 x22 x23.
     xs = [x0, x1, x2, x3, x4, x5, x6, x7, x8, x9, x10, x11, x12, x13, x14, x15,
               x16, x17, x18, x19, x20, x21, x22, x23]"
    by (clarsimp simp: numeral_eq_Suc length_Suc_conv)
  then show ?thesis by (elim exE) (rule that)
qed

lemma decode_nonzero_padding:
  "shader_uniform_factory shader_uniforms_from_defn_keys
     [0, 0, 128, 63, 1, 2, 3, 4, 0, 0, 0, 0, 0, 0, 0, 0, 54, 1, 0, 255, 0, 0, 0, 0]
   = Inr (''Bumpiness'', \<lparr>num_floats = 1, data = [FloatV 1065353216]\<rparr>)"
  unfolding shader_uniform_factory_def
  by (simp add: ebind_Inr ebind_Inl item_def lookup_def shader_uniform_from_ids_def
      shader_uniform_from_ids_items_def unpack_uint_def py_assert_def unpack_def
      shader_uniforms_from_defn_def shader_uniforms_from_defn_keys_def
      cong: ebind_weak_cong)

lemma replicate_numeral_Cons:
  "replicate (numeral k) x = x # replicate (pred_numeral k) x"
proof -
  have "replicate (Suc (pred_numeral k)) x = x # replicate (pred_numeral k) x"
    by (rule replicate.simps(2))
  then show ?thesis
    unfolding numeral_eq_Suc [of k] .
qed

lemma encode_bumpiness:
  "shader_uniform_data_factory to_float ''Bumpiness'' \<lparr>num_floats = 1, data = [FloatV 1065353216]\<rparr>
   = Inr [0, 0, 128, 63, 0, 0, 0, 0, 0, 0, 0, 0, 0, 0, 0, 0, 54, 1, 0, 255, 0, 0, 0, 0]"
  unfolding shader_uniform_data_factory_def
  by (simp add: ebind_Inr ebind_Inl item_def lookup_def shader_uniform_from_names_def
      shader_uniform_from_ids_items_def pack_uint_def pad_byte_def le_bytes_numeral replicate_numeral_Cons
      cong: ebind_weak_cong)

lemma unpack_uint_eq_Inr:
  "unpack_uint f bs = Inr v \<longleftrightarrow> length bs = field_size f \<and> v = le_nat bs"
  by (auto simp: unpack_uint_def)

lemma unpack_eq_Inr:
  "unpack fmt bs = Inr vs \<longleftrightarrow> length bs = sum_list (map field_size fmt) \<and> vs = unpack_fields fmt bs"
  by (auto simp: unpack_def)

lemma lookup_eq_Inr: "lookup d k = Inr v \<longleftrightarrow> d k = Some v"
  by (simp add: lookup_def split: option.splits)

lemma item_eq_Inr: "item xs i = Inr x \<longleftrightarrow> i < length xs \<and> x = xs ! i"
  by (auto simp: item_def)

lemma ebind_InrE:
  assumes "ebind m f = Inr y"
  obtains x where "m = Inr x" "f x = Inr y"
  using assms by (auto simp: ebind_eq_Inr)

lemmas success_simps = py_assert_eq_Inr unpack_uint_eq_Inr unpack_eq_Inr
  lookup_eq_Inr item_eq_Inr

lemma byte_eq_of_unat: "unat (x :: byte) = n \<Longrightarrow> x = word_of_nat n"
  by (metis of_nat_unat ucast_id)

lemma unat_byte_less: "unat (x :: byte) < 256"
  using unsigned_less [of x] by simp

lemma u16_sentinel:
  "unat (a :: byte) + 256 * unat (b :: byte) = 65280 \<longleftrightarrow> a = 0 \<and> b = 255"
proof
  assume h: "unat a + 256 * unat b = 65280"
  have "unat a = 0 \<and> unat b = 255"
    using h unat_byte_less [of a] unat_byte_less [of b] by arith
  then show "a = 0 \<and> b = 255"
    using byte_eq_of_unat [of a 0] byte_eq_of_unat [of b 255] by simp
next
  assume "a = 0 \<and> b = 255"
  then show "unat a + 256 * unat b = 65280" by simp
qed

lemma u8_sentinel: "unat (a :: byte) = 100 \<longleftrightarrow> a = 100"
  using byte_eq_of_unat [of a 100] by auto

lemma pack_uint_byte: "pack_uint U8 (unat (x :: byte)) = Inr [x]"
  using pack_int_field [of U8 "[x]"] by (simp add: pack_uint_def)

lemma pack_uint_consts:
  "pack_uint U16 0 = Inr [0, 0]"
  "pack_uint U8 100 = Inr [100]"
  "pack_uint U16 65280 = Inr [0, 255]"
  "pack_uint U32 0 = Inr [0, 0, 0, 0]"
  by (simp_all add: pack_uint_def le_bytes_numeral)

lemma umc_round_trip:
  assumes len: "length raw = 24"
    and dec: "umc_factory raw = Inr (t, vs)"
  shows "umc_data_factory to_float t vs = Inr raw"
proof -
  obtain x0 x1 x2 x3 x4 x5 x6 x7 x8 x9 x10 x11 x12 x13 x14 x15 x16 x17 x18 x19 x20 x21 x22 x23
    where raw: "raw = [x0, x1, x2, x3, x4, x5, x6, x7, x8, x9, x10, x11, x12, x13, x14, x15,
               x16, x17, x18, x19, x20, x21, x22, x23]"
    by (rule list24 [OF len])
  have inv: "x8 = 0 \<and> x9 = 0 \<and> x10 = 0 \<and> x11 = 0 \<and> x12 = 0 \<and> x13 = 0 \<and> x14 = 0 \<and> x15 = 0
      \<and> x20 = 0 \<and> x21 = 0 \<and> x22 = 0 \<and> x23 = 0 \<and> x17 = 100 \<and> x18 = 0 \<and> x19 = 255
      \<and> t = unat x16
      \<and> (\<exists>fmt. possibly_umc_types (unat x16) = Some fmt
            \<and> length [x0, x1, x2, x3, x4, x5, x6, x7] = sum_list (map field_size fmt)
            \<and> vs = unpack_fields fmt [x0, x1, x2, x3, x4, x5, x6, x7])"
    using dec unfolding raw umc_factory_def Let_def
    by (elim ebind_InrE) (simp add: success_simps unsigned_eq_0_iff u16_sentinel u8_sentinel)
  then obtain fmt where
    zeros: "x8 = 0" "x9 = 0" "x10 = 0" "x11 = 0" "x12 = 0" "x13 = 0" "x14 = 0" "x15 = 0"
           "x20 = 0" "x21 = 0" "x22 = 0" "x23 = 0"
    and sentinels: "x17 = 100" "x18 = 0" "x19 = 255"
    and fmt: "possibly_umc_types (unat x16) = Some fmt"
             "length [x0, x1, x2, x3, x4, x5, x6, x7] = sum_list (map field_size fmt)"
    and res: "t = unat x16" "vs = unpack_fields fmt [x0, x1, x2, x3, x4, x5, x6, x7]"
    by blast
  have payload: "pack_fields to_float fmt vs = Inr [x0, x1, x2, x3, x4, x5, x6, x7]"
    unfolding res by (rule pack_unpack_fields [OF fmt(2)])
  show ?thesis
    unfolding umc_data_factory_def raw res(1)
    by (simp add: ebind_Inr lookup_def fmt(1) payload pack_uint_consts pack_uint_byte
        py_assert_def zeros sentinels cong: ebind_weak_cong)
qed

lemma length_unpack_fields: "length (unpack_fields fmt bs) = length fmt"
  by (induction fmt arbitrary: bs) simp_all

lemma float_pad_check_vacuous:
  "assert_all_zero (drop n (unpack_fields (replicate n F32) bs)) = Inr ()"
  by (simp add: length_unpack_fields)

text \<open>
  C5: the claim is that a shader-uniform record with a float count above 0 fails to
  decode when a payload byte after the floats is nonzero. The decoder's loop
  \<^verbatim>\<open>for i, datum in enumerate(payload[num_floats:]): assert datum == 0\<close> runs
  over the floats already cut to \<open>num_floats\<close> values, so it checks nothing: the
  record with one float followed by the bytes 1, 2, 3, 4 decodes.
\<close>

theorem shader_uniform_factory_skips_pad_check:
  "assert_all_zero (drop n (unpack_fields (replicate n F32) bs)) = Inr ()
   \<and> shader_uniform_factory shader_uniforms_from_defn_keys
       [0, 0, 128, 63, 1, 2, 3, 4, 0, 0, 0, 0, 0, 0, 0, 0, 54, 1, 0, 255, 0, 0, 0, 0]
     = Inr (''Bumpiness'', \<lparr>num_floats = 1, data = [FloatV 1065353216]\<rparr>)"
  using float_pad_check_vacuous decode_nonzero_padding by (rule conjI)

text \<open>
  C1: the claim is that re-encoding a decoded 24-byte record gives the 24 bytes
  back. For unknown-component records it does (\<open>umc_round_trip\<close>). The
  shader-uniform record above decodes, and its re-encoding has zeros where the
  record had the bytes 1, 2, 3, 4.
\<close>

theorem shader_uniform_reencode_differs:
  "ebind (shader_uniform_factory shader_uniforms_from_defn_keys
            [0, 0, 128, 63, 1, 2, 3, 4, 0, 0, 0, 0, 0, 0, 0, 0, 54, 1, 0, 255, 0, 0, 0, 0])
         (\<lambda>(uniform_type, shader_uniform).
            shader_uniform_data_factory (\<lambda>_. 0) uniform_type shader_uniform)
     = Inr [0, 0, 128, 63, 0, 0, 0, 0, 0, 0, 0, 0, 0, 0, 0, 0, 54, 1, 0, 255, 0, 0, 0, 0]
   \<and> [0, 0, 128, 63, 0, 0, 0, 0, 0, 0, 0, 0, 0, 0, 0, 0, 54, 1, 0, 255, 0, 0, 0, 0]
       \<noteq> [0, 0, 128, 63, 1, 2, 3, 4, 0, 0, 0, 0, 0, 0, 0, 0, 54, 1, 0, 255, 0, 0, 0, 0 :: byte]"
proof
  show "ebind (shader_uniform_factory shader_uniforms_from_defn_keys
            [0, 0, 128, 63, 1, 2, 3, 4, 0, 0, 0, 0, 0, 0, 0, 0, 54, 1, 0, 255, 0, 0, 0, 0])
         (\<lambda>(uniform_type, shader_uniform).
            shader_uniform_data_factory (\<lambda>_. 0) uniform_type shader_uniform)
     = Inr [0, 0, 128, 63, 0, 0, 0, 0, 0, 0, 0, 0, 0, 0, 0, 0, 54, 1, 0, 255, 0, 0, 0, 0]"
    by (simp only: decode_nonzero_padding ebind_Inr prod.case encode_bumpiness)
  show "[0, 0, 128, 63, 0, 0, 0, 0, 0, 0, 0, 0, 0, 0, 0, 0, 54, 1, 0, 255, 0, 0, 0, 0]
       \<noteq> [0, 0, 128, 63, 1, 2, 3, 4, 0, 0, 0, 0, 0, 0, 0, 0, 54, 1, 0, 255, 0, 0, 0, 0 :: byte]"
    by simp
qed

subsection \<open>Mesh assembly\<close>












subsection \<open>Material assembly\<close>
















subsection \<open>Skeleton assembly\<close>







end
